theory Spec2Isabelle
  imports Main "HOL-Library.Log_Nat" "HOL-Library.AList"
begin

section \<open>Python values and exceptions\<close>

text \<open>
  The two programs are Flask applications: \<^verbatim>\<open>TestClient/TestClient5000.py\<close> (the
  receiver, \<^verbatim>\<open>POST /data\<close>) and \<^verbatim>\<open>TestServer/TestServer5003.py\<close> (the emulator,
  \<^verbatim>\<open>GET /data.json\<close>). Their handlers work on the Python values that the JSON decoder
  produces, so the model starts with those values.
\<close>

text \<open>
  A JSON number with a fraction or an exponent is decoded to a Python float; the decoder
  also accepts \<^verbatim>\<open>NaN\<close>, \<^verbatim>\<open>Infinity\<close> and \<^verbatim>\<open>-Infinity\<close>. The receiver only tests a float
  for zero, so a finite float is kept as the rational it denotes.
\<close>

datatype json_float = Finite rat | PosInfinity | NegInfinity | NaN

text \<open>
  A decoded JSON document. An object is a Python \<^verbatim>\<open>dict\<close>: its items in insertion order,
  the keys distinct. A Python string is a sequence of code points; it is kept as the bytes
  of its UTF-8 form. The decoder turns the escape of a surrogate such as U+D800 into a lone surrogate,
  which no UTF-8 text holds; such a code point is kept as the three bytes that the UTF-8
  scheme gives it, \<^verbatim>\<open>ED A0 80\<close> to \<^verbatim>\<open>ED BF BF\<close>.
\<close>

datatype json =
    JNull
  | JBool bool
  | JInt int
  | JFloat json_float
  | JStr string
  | JArr "json list"
  | JObj "(string \<times> json) list"

text \<open>The exceptions that the modelled code can raise, and the HTTP errors Flask aborts with.\<close>

datatype exn =
    TypeError
  | AttributeError
  | KeyError
  | IndexError
  | ValueError
  | UnicodeEncodeError
  | HTTPException nat

text \<open>What a Flask view returns: \<^verbatim>\<open>jsonify(body), status\<close>.\<close>

record response =
  body :: json
  status :: nat

text \<open>Python truthiness (\<^verbatim>\<open>if data:\<close>).\<close>

fun truthy :: "json \<Rightarrow> bool" where
  "truthy JNull = False"
| "truthy (JBool b) = b"
| "truthy (JInt n) = (n \<noteq> 0)"
| "truthy (JFloat f) = (f \<noteq> Finite 0)"
| "truthy (JStr s) = (s \<noteq> [])"
| "truthy (JArr xs) = (xs \<noteq> [])"
| "truthy (JObj kvs) = (kvs \<noteq> [])"

text \<open>
  The characters of a string: a byte from \<^verbatim>\<open>80\<close> to \<^verbatim>\<open>BF\<close> continues the code point that
  the byte before it began.
\<close>

definition is_continuation :: "char \<Rightarrow> bool" where
  "is_continuation c = (128 \<le> (of_char c :: nat) \<and> (of_char c :: nat) < 192)"

function code_points :: "string \<Rightarrow> string list" where
  "code_points [] = []"
| "code_points (c # cs) =
     (c # takeWhile is_continuation cs) # code_points (dropWhile is_continuation cs)"
  by pat_completeness auto
termination
  by (relation "measure length") (auto simp: less_Suc_eq_le length_dropWhile_le)

text \<open>
  \<^verbatim>\<open>for sensor in data\<close>: a list yields its elements, a dict its keys, a string its
  characters; a number or a boolean is not iterable.
\<close>

fun py_iter :: "json \<Rightarrow> exn + json list" where
  "py_iter (JArr xs) = Inr xs"
| "py_iter (JObj kvs) = Inr (map (\<lambda>kv. JStr (fst kv)) kvs)"
| "py_iter (JStr s) = Inr (map JStr (code_points s))"
| "py_iter _ = Inl TypeError"

text \<open>\<^verbatim>\<open>sensor.get(key, default)\<close>: only a dict has the method.\<close>

fun py_get :: "json \<Rightarrow> string \<Rightarrow> json \<Rightarrow> exn + json" where
  "py_get (JObj kvs) k d = Inr (case map_of kvs k of None \<Rightarrow> d | Some v \<Rightarrow> v)"
| "py_get _ k d = Inl AttributeError"

section \<open>Decimal digits\<close>

definition digit_table :: "(char \<times> nat) list" where
  "digit_table =
     [(CHR ''0'', 0), (CHR ''1'', 1), (CHR ''2'', 2), (CHR ''3'', 3), (CHR ''4'', 4),
      (CHR ''5'', 5), (CHR ''6'', 6), (CHR ''7'', 7), (CHR ''8'', 8), (CHR ''9'', 9)]"

definition digit_char :: "nat \<Rightarrow> char" where
  "digit_char d = fst (digit_table ! d)"

definition digit_val :: "char \<Rightarrow> nat option" where
  "digit_val c = map_of digit_table c"

definition is_digit :: "char \<Rightarrow> bool" where
  "is_digit c = (digit_val c \<noteq> None)"

text \<open>The decimal numeral of a natural number, without leading zeros.\<close>

fun show_nat :: "nat \<Rightarrow> string" where
  "show_nat n = (if n < 10 then [digit_char n] else show_nat (n div 10) @ [digit_char (n mod 10)])"

declare show_nat.simps [simp del]

text \<open>The value of a string of decimal digits; \<open>None\<close> when a character is not a digit.\<close>

fun read_digits :: "nat \<Rightarrow> string \<Rightarrow> nat option" where
  "read_digits acc [] = Some acc"
| "read_digits acc (c # cs) =
     (case digit_val c of None \<Rightarrow> None | Some d \<Rightarrow> read_digits (acc * 10 + d) cs)"

text \<open>Zero padding to a field width, as \<^verbatim>\<open>%m\<close> or \<^verbatim>\<open>%Y\<close> do.\<close>

definition zero_pad :: "nat \<Rightarrow> nat \<Rightarrow> string" where
  "zero_pad w n = replicate (w - length (show_nat n)) (CHR ''0'') @ show_nat n"

section \<open>The receiver: \<^verbatim>\<open>receive_data\<close>\<close>

text \<open>What \<^verbatim>\<open>datetime.now()\<close> returned (the microseconds are not printed).\<close>

record datetime =
  year :: nat
  month :: nat
  day :: nat
  hour :: nat
  minute :: nat
  second :: nat

text \<open>
  \<^verbatim>\<open>strftime\<close>, for the directives the receiver's format uses; any other character is
  copied. \<^verbatim>\<open>%Y\<close> is written with four digits, which is where the platforms agree for the
  years 1000 to 9999.
\<close>

fun strftime :: "datetime \<Rightarrow> string \<Rightarrow> string" where
  "strftime dt [] = []"
| "strftime dt [c] = [c]"
| "strftime dt (c # d # rest) =
     (if c = CHR ''%'' then
        (if d = CHR ''Y'' then zero_pad 4 (year dt) @ strftime dt rest
         else if d = CHR ''m'' then zero_pad 2 (month dt) @ strftime dt rest
         else if d = CHR ''d'' then zero_pad 2 (day dt) @ strftime dt rest
         else if d = CHR ''H'' then zero_pad 2 (hour dt) @ strftime dt rest
         else if d = CHR ''M'' then zero_pad 2 (minute dt) @ strftime dt rest
         else if d = CHR ''S'' then zero_pad 2 (second dt) @ strftime dt rest
         else c # d # strftime dt rest)
      else c # strftime dt (d # rest))"

text \<open>
  A printed line is kept as the parts of its f-string: the literal text and, for each
  replacement field, the value substituted there (printed as Python's \<^verbatim>\<open>str\<close> of it).
\<close>

datatype fpart = Lit string | Val json

type_synonym line = "fpart list"

text \<open>
  The text of a replacement field, for the values whose \<^verbatim>\<open>str\<close> is modelled: a string
  is printed as it is, an integer in decimal, \<^verbatim>\<open>True\<close>, \<^verbatim>\<open>False\<close> and \<^verbatim>\<open>None\<close> by name.
  The text of a float, a list or a dict (Python's \<^verbatim>\<open>repr\<close>) is not modelled: \<open>None\<close>.
\<close>

fun py_str :: "json \<Rightarrow> string option" where
  "py_str (JStr s) = Some s"
| "py_str (JInt n) = Some (if n < 0 then CHR ''-'' # show_nat (nat (- n)) else show_nat (nat n))"
| "py_str (JBool b) = Some (if b then ''True'' else ''False'')"
| "py_str JNull = Some ''None''"
| "py_str _ = None"

fun line_text :: "line \<Rightarrow> string option" where
  "line_text [] = Some []"
| "line_text (Lit s # ps) = map_option (\<lambda>t. s @ t) (line_text ps)"
| "line_text (Val v # ps) =
     (case py_str v of None \<Rightarrow> None
      | Some s \<Rightarrow> map_option (\<lambda>t. s @ t) (line_text ps))"

text \<open>Lines 13 to 17, the body of the loop: four lookups, then the line that is printed.\<close>

definition sensor_line :: "json \<Rightarrow> exn + line" where
  "sensor_line sensor =
     (case py_get sensor ''ExternalId'' (JStr ''N/A'') of Inl e \<Rightarrow> Inl e
      | Inr sensor_id \<Rightarrow>
     (case py_get sensor ''Name'' (JStr ''N/A'') of Inl e \<Rightarrow> Inl e
      | Inr sensor_name \<Rightarrow>
     (case py_get sensor ''Value'' (JStr ''N/A'') of Inl e \<Rightarrow> Inl e
      | Inr sensor_value \<Rightarrow>
     (case py_get sensor ''SensorTag'' (JStr ''N/A'') of Inl e \<Rightarrow> Inl e
      | Inr sensor_tag \<Rightarrow>
        Inr [Lit ''Sensor ID: '', Val sensor_id, Lit '', Sensor Name: '', Val sensor_name,
             Lit '', Sensor Tag: '', Val sensor_tag, Lit '', Value: '', Val sensor_value]))))"

text \<open>
  \<^verbatim>\<open>print\<close> writes to \<^verbatim>\<open>sys.stdout\<close>, a text stream with an encoding, and raises
  UnicodeEncodeError when the encoding cannot represent the text; nothing of the line is
  written then. The stream is an input of the model: \<open>stdout v\<close> says whether the stream's
  encoding represents \<^verbatim>\<open>str(v)\<close>. The literal parts of this program's lines and the
  timestamp are ASCII, which every stream encoding represents.
\<close>

fun encodable_part :: "(json \<Rightarrow> bool) \<Rightarrow> fpart \<Rightarrow> bool" where
  "encodable_part stdout (Lit s) = True"
| "encodable_part stdout (Val v) = stdout v"

definition printable :: "(json \<Rightarrow> bool) \<Rightarrow> line \<Rightarrow> bool" where
  "printable stdout l = list_all (encodable_part stdout) l"

definition py_print :: "(json \<Rightarrow> bool) \<Rightarrow> line \<Rightarrow> line list \<Rightarrow> exn + line list" where
  "py_print stdout l out =
     (if printable stdout l then Inr (out @ [l]) else Inl UnicodeEncodeError)"

text \<open>
  A stream encoded in UTF-8, the default: UTF-8 represents every code point but the
  surrogates. A string is printed as it is, so it must hold no surrogate, that is, no byte
  \<^verbatim>\<open>ED\<close> followed by a byte from \<^verbatim>\<open>A0\<close> on. The text of a number, a boolean or \<^verbatim>\<open>None\<close>
  is ASCII, and the text of a list or a dict is its \<^verbatim>\<open>repr\<close>, which writes a surrogate
  inside a string as an escape.
\<close>

fun has_surrogate :: "string \<Rightarrow> bool" where
  "has_surrogate (a # b # cs) =
     ((a = CHR 0xED \<and> 160 \<le> (of_char b :: nat)) \<or> has_surrogate (b # cs))"
| "has_surrogate _ = False"

fun utf8_stdout :: "json \<Rightarrow> bool" where
  "utf8_stdout (JStr s) = (\<not> has_surrogate s)"
| "utf8_stdout _ = True"

text \<open>
  Lines 12 to 17, the loop: the lines printed so far are kept when an element raises,
  in a lookup or in \<^verbatim>\<open>print\<close>.
\<close>

fun print_sensors ::
  "(json \<Rightarrow> bool) \<Rightarrow> json list \<Rightarrow> line list \<Rightarrow> line list \<times> exn option" where
  "print_sensors stdout [] out = (out, None)"
| "print_sensors stdout (sensor # rest) out =
     (case sensor_line sensor of
        Inl e \<Rightarrow> (out, Some e)
      | Inr l \<Rightarrow>
          (case py_print stdout l out of
             Inl e \<Rightarrow> (out, Some e)
           | Inr out' \<Rightarrow> print_sensors stdout rest out'))"

text \<open>
  The view. Its inputs are the standard output stream, the clock and what evaluating
  \<^verbatim>\<open>request.json\<close> gave: the decoded body, or the HTTP error Flask aborts the request
  with. The result is what was printed, and the response returned or the exception that
  left the view.
\<close>

definition receive_data ::
  "(json \<Rightarrow> bool) \<Rightarrow> datetime \<Rightarrow> exn + json \<Rightarrow> line list \<times> (exn + response)" where
  "receive_data stdout now request_json =
     (case request_json of
        Inl e \<Rightarrow> ([], Inl e)
      | Inr data \<Rightarrow>
          if truthy data then
            (let timestamp = strftime now ''%Y-%m-%d %H:%M:%S''
             in case py_print stdout [Lit ''Received data at '', Lit timestamp, Lit '':''] [] of
                  Inl e \<Rightarrow> ([], Inl e)
                | Inr out \<Rightarrow>
                    (case py_iter data of
                       Inl e \<Rightarrow> (out, Inl e)
                     | Inr sensors \<Rightarrow>
                         (case print_sensors stdout sensors out of
                            (out', Some e) \<Rightarrow> (out', Inl e)
                          | (out', None) \<Rightarrow>
                              (out', Inr \<lparr>body = JObj [(''status'', JStr ''success'')],
                                          status = 200\<rparr>))))
          else ([], Inr \<lparr>body = JObj [(''status'', JStr ''no data received'')], status = 400\<rparr>))"

text \<open>
  The line the interface documents for one reading, stated on the reading's items: each of
  the four keys shows its value, and \<^verbatim>\<open>N/A\<close> when the key is missing.
\<close>

definition field_or_NA :: "(string \<times> json) list \<Rightarrow> string \<Rightarrow> json" where
  "field_or_NA kvs k = (if k \<in> set (map fst kvs) then the (map_of kvs k) else JStr ''N/A'')"

definition reading_line :: "(string \<times> json) list \<Rightarrow> line" where
  "reading_line kvs =
     [Lit ''Sensor ID: '', Val (field_or_NA kvs ''ExternalId''),
      Lit '', Sensor Name: '', Val (field_or_NA kvs ''Name''),
      Lit '', Sensor Tag: '', Val (field_or_NA kvs ''SensorTag''),
      Lit '', Value: '', Val (field_or_NA kvs ''Value'')]"

text \<open>The shape \<^verbatim>\<open>YYYY-MM-DD HH:MM:SS\<close>: nineteen characters, digits around the separators.\<close>

definition is_timestamp :: "string \<Rightarrow> bool" where
  "is_timestamp s =
     (length s = 19 \<and>
      list_all (\<lambda>i. is_digit (s ! i)) [0, 1, 2, 3, 5, 6, 8, 9, 11, 12, 14, 15, 17, 18] \<and>
      s ! 4 = CHR ''-'' \<and> s ! 7 = CHR ''-'' \<and> s ! 10 = CHR '' '' \<and>
      s ! 13 = CHR '':'' \<and> s ! 16 = CHR '':'')"

text \<open>The range of \<^verbatim>\<open>datetime.now()\<close> in which \<^verbatim>\<open>%Y\<close> has four digits on every platform.\<close>

definition four_digit_year :: "datetime \<Rightarrow> bool" where
  "four_digit_year dt =
     (1000 \<le> year dt \<and> year dt \<le> 9999 \<and> 1 \<le> month dt \<and> month dt \<le> 12 \<and>
      1 \<le> day dt \<and> day dt \<le> 31 \<and> hour dt \<le> 23 \<and> minute dt \<le> 59 \<and> second dt \<le> 59)"

text \<open>
  The payloads the interface documents (\<^verbatim>\<open>POST /data\<close>: a JSON array of objects), and
  the two empty ones its tests post (\<^verbatim>\<open>null\<close> and \<^verbatim>\<open>{}\<close>).
\<close>

fun is_object :: "json \<Rightarrow> bool" where
  "is_object (JObj kvs) = True"
| "is_object _ = False"




section \<open>Binary floating point\<close>

text \<open>
  The emulator computes \<^verbatim>\<open>"{:.1f}".format(float(v) + 0.1)\<close>. A Python float is an IEEE 754
  binary64 number, and each of the three operations (reading the numeral, the sum, the
  formatting) is correctly rounded: it gives the result of the exact operation, rounded
  once. The model therefore keeps a float as the rational it denotes and rounds
  explicitly. Only floats that are not negative occur: the numerals read have no sign,
  and sums of such floats are not negative.
\<close>

datatype pyfloat = Fin rat | PosInf

text \<open>The nearest integer, a tie going to the even one.\<close>

definition round_half_even :: "rat \<Rightarrow> int" where
  "round_half_even z =
     (let f = \<lfloor>z\<rfloor>; r = z - of_int f
      in if r < 1 / 2 then f else if 1 / 2 < r then f + 1 else if even f then f else f + 1)"

text \<open>
  The binary exponent of a positive rational \<open>x\<close>: the \<open>e\<close> with \<open>2\<^sup>e \<le> x < 2\<^sup>e\<^sup>+\<^sup>1\<close>,
  computed from the bit lengths of numerator and denominator.
\<close>

definition binade :: "rat \<Rightarrow> int" where
  "binade x =
     (let k = bitlen (fst (quotient_of x)) - bitlen (snd (quotient_of x))
      in if 2 powi k \<le> x then k else k - 1)"

text \<open>
  Rounding a rational that is not negative to binary64, to nearest with ties to even: 53
  significant bits, so the spacing at exponent \<open>e\<close> is \<open>2\<^sup>e\<^sup>-\<^sup>5\<^sup>2\<close>; below \<open>2\<^sup>-\<^sup>1\<^sup>0\<^sup>2\<^sup>2\<close>
  the spacing stays that of the subnormal numbers; a result of \<open>2\<^sup>1\<^sup>0\<^sup>2\<^sup>4\<close> or more is
  infinity.
\<close>

definition to_double :: "rat \<Rightarrow> pyfloat" where
  "to_double x =
     (if x = 0 then Fin 0
      else
        let e = max (binade x) (- 1022);
            u = 2 powi (e - 52);
            r = of_int (round_half_even (x / u)) * u
        in if 2 powi 1024 \<le> r then PosInf else Fin r)"

text \<open>
  \<^verbatim>\<open>float(s)\<close> on the numerals the emulator can hold: decimal digits with at most one
  point and at least one digit (\<^verbatim>\<open>88.0\<close>, \<^verbatim>\<open>88\<close>, \<^verbatim>\<open>88.\<close>, \<^verbatim>\<open>.5\<close>), and \<^verbatim>\<open>inf\<close>. Python
  accepts more (a sign, an exponent, underscores, surrounding blanks, \<^verbatim>\<open>nan\<close>); none of
  these is a string that \<^verbatim>\<open>"{:.1f}".format\<close> produces from a float that is not negative,
  and the model answers \<open>ValueError\<close> on them as it does on a string that is no number.
  So where the model does not raise, Python does not raise either.
\<close>

definition py_float :: "string \<Rightarrow> exn + pyfloat" where
  "py_float s =
     (if s = ''inf'' then Inr PosInf
      else
        let ip = takeWhile (\<lambda>c. c \<noteq> CHR ''.'') s;
            fp = drop 1 (dropWhile (\<lambda>c. c \<noteq> CHR ''.'') s)
        in case read_digits 0 (ip @ fp) of
             None \<Rightarrow> Inl ValueError
           | Some n \<Rightarrow>
               if ip @ fp = [] then Inl ValueError
               else Inr (to_double (of_nat n / 10 ^ length fp)))"

text \<open>The sum of two floats: the exact sum, rounded.\<close>

fun float_add :: "pyfloat \<Rightarrow> pyfloat \<Rightarrow> pyfloat" where
  "float_add (Fin a) (Fin b) = to_double (a + b)"
| "float_add _ _ = PosInf"

text \<open>The decimal numeral with one fractional digit that denotes \<open>d / 10\<close>.\<close>

definition tenths :: "nat \<Rightarrow> string" where
  "tenths d = show_nat (d div 10) @ ''.'' @ [digit_char (d mod 10)]"

text \<open>
  \<^verbatim>\<open>"{:.1f}".format(x)\<close>: the float's exact value rounded to one decimal, a tie going to
  the even digit.
\<close>

fun format_1f :: "pyfloat \<Rightarrow> string" where
  "format_1f (Fin r) = tenths (nat (round_half_even (r * 10)))"
| "format_1f PosInf = ''inf''"

text \<open>
  The right-hand side of lines 36 to 38 for the string \<open>v\<close> read from the sensor; the
  literal \<^verbatim>\<open>0.1\<close> is the float nearest to one tenth.
\<close>

definition incremented :: "string \<Rightarrow> exn + string" where
  "incremented v =
     (case py_float v of
        Inl e \<Rightarrow> Inl e
      | Inr x \<Rightarrow> Inr (format_1f (float_add x (to_double (1 / 10)))))"

section \<open>The emulator: \<^verbatim>\<open>update_fake_sensors\<close> and \<^verbatim>\<open>data_json\<close>\<close>

text \<open>A fake sensor is a dict from strings to strings: its items in insertion order.\<close>

type_synonym sensor = "(string \<times> string) list"

text \<open>The module's global list, as lines 12 to 31 initialise it.\<close>

definition sensors_data :: "sensor list" where
  "sensors_data =
     [[(''Text'', ''Fake Sensor 1''), (''Type'', ''Temperature''), (''Value'', ''88.0''),
       (''SensorId'', ''fake_sensor_1'')],
      [(''Text'', ''Fake Sensor 2''), (''Type'', ''Humidity''), (''Value'', ''20.0''),
       (''SensorId'', ''fake_sensor_2'')],
      [(''Text'', ''Fake Sensor 3''), (''Type'', ''Pressure''), (''Value'', ''11.0''),
       (''SensorId'', ''fake_sensor_3'')]]"

definition REFRESH_RATE :: nat where
  "REFRESH_RATE = 5"

text \<open>
  One of the lines 36 to 38, for the index \<open>i\<close>:
  \<^verbatim>\<open>sensors_data[i]["Value"] = "{:.1f}".format(float(sensors_data[i]["Value"]) + 0.1)\<close>.
  The right-hand side is evaluated first and can raise IndexError, KeyError or
  ValueError; then the item is stored in the dict, in place.
\<close>

definition update_value :: "nat \<Rightarrow> sensor list \<Rightarrow> exn + sensor list" where
  "update_value i xs =
     (if length xs \<le> i then Inl IndexError
      else
        case map_of (xs ! i) ''Value'' of
          None \<Rightarrow> Inl KeyError
        | Some v \<Rightarrow>
            (case incremented v of
               Inl e \<Rightarrow> Inl e
             | Inr v' \<Rightarrow> Inr (xs[i := AList.update ''Value'' v' (xs ! i)])))"

text \<open>
  The state of the process: the global list; where the updater thread stands in its loop
  body (\<open>pc\<close> 0, 1 and 2 are the assignments of lines 36 to 38, 3 is the
  \<^verbatim>\<open>time.sleep(REFRESH_RATE)\<close> of line 39); the exception that ended the thread, if one
  did (nothing catches it); and the seconds the thread has spent in sleeps that are over.
\<close>

record emulator =
  sensors :: "sensor list"
  pc :: nat
  died :: "exn option"
  slept :: nat

text \<open>
  The updater thread executes its next statement. An assignment that raises ends the
  thread; the sleep returns after \<open>REFRESH_RATE\<close> seconds and the loop starts over.
\<close>

definition updater_step :: "emulator \<Rightarrow> emulator" where
  "updater_step s =
     (case died s of
        Some e \<Rightarrow> s
      | None \<Rightarrow>
          if pc s < 3 then
            (case update_value (pc s) (sensors s) of
               Inl e \<Rightarrow> s\<lparr>died := Some e\<rparr>
             | Inr xs \<Rightarrow> s\<lparr>sensors := xs, pc := pc s + 1\<rparr>)
          else s\<lparr>pc := 0, slept := slept s + REFRESH_RATE\<rparr>)"

text \<open>
  \<^verbatim>\<open>while True:\<close> has no exit, so the loop is given by its first \<open>n\<close> passes: each pass
  is the three assignments and the sleep.
\<close>

fun update_fake_sensors :: "nat \<Rightarrow> emulator \<Rightarrow> emulator" where
  "update_fake_sensors 0 s = s"
| "update_fake_sensors (Suc n) s =
     update_fake_sensors n (updater_step (updater_step (updater_step (updater_step s))))"

text \<open>\<^verbatim>\<open>jsonify(sensors_data)\<close>: the list of dicts as a JSON array of objects.\<close>

definition jsonify :: "sensor list \<Rightarrow> json" where
  "jsonify xs = JArr (map (\<lambda>d. JObj (map (\<lambda>(k, v). (k, JStr v)) d)) xs)"

text \<open>
  The view of \<^verbatim>\<open>GET /data.json\<close>: the response, and the state it leaves. Flask answers
  200 when the view returns no status.
\<close>

definition data_json :: "emulator \<Rightarrow> response \<times> emulator" where
  "data_json s = (\<lparr>body = jsonify (sensors s), status = 200\<rparr>, s)"

text \<open>
  The updater thread and the request handlers share the list without a lock, so a run of
  the process is an interleaving: \<open>Updater\<close> is one statement of the thread, \<open>Get\<close> is one
  request served, taken to read the whole list in one step. \<open>run\<close> gives the responses in order and the final state.
\<close>

datatype event = Updater | Get

fun run :: "event list \<Rightarrow> emulator \<Rightarrow> response list \<times> emulator" where
  "run [] s = ([], s)"
| "run (Updater # es) s = run es (updater_step s)"
| "run (Get # es) s =
     (case data_json s of (r, s') \<Rightarrow> (case run es s' of (rs, s'') \<Rightarrow> (r # rs, s'')))"

text \<open>
  The state when line 48 has started the thread and line 49 starts the server: the thread
  is at the head of its loop and has not slept.
\<close>

definition startup :: emulator where
  "startup = \<lparr>sensors = sensors_data, pc = 0, died = None, slept = 0\<rparr>"

subsection \<open>Notions used to state the emulator's properties\<close>

text \<open>What an update must leave alone: every item but \<^verbatim>\<open>Value\<close>, and the keys in order.\<close>

definition fixed_part :: "sensor list \<Rightarrow> sensor list \<times> string list list" where
  "fixed_part xs = (map (filter (\<lambda>kv. fst kv \<noteq> ''Value'')) xs, map (map fst) xs)"

text \<open>The \<^verbatim>\<open>Value\<close> of each sensor, in the state and in a response body.\<close>

definition readings :: "sensor list \<Rightarrow> string option list" where
  "readings xs = map (\<lambda>d. map_of d ''Value'') xs"

fun value_fields :: "json \<Rightarrow> json option list" where
  "value_fields (JArr xs) =
     map (\<lambda>x. case x of JObj kvs \<Rightarrow> map_of kvs ''Value'' | _ \<Rightarrow> None) xs"
| "value_fields _ = []"

text \<open>The three fake sensors with the given values.\<close>

definition fake_sensors :: "string \<Rightarrow> string \<Rightarrow> string \<Rightarrow> sensor list" where
  "fake_sensors a b c =
     [[(''Text'', ''Fake Sensor 1''), (''Type'', ''Temperature''), (''Value'', a),
       (''SensorId'', ''fake_sensor_1'')],
      [(''Text'', ''Fake Sensor 2''), (''Type'', ''Humidity''), (''Value'', b),
       (''SensorId'', ''fake_sensor_2'')],
      [(''Text'', ''Fake Sensor 3''), (''Type'', ''Pressure''), (''Value'', c),
       (''SensorId'', ''fake_sensor_3'')]]"

text \<open>
  A decimal number with one fractional digit: digits, a point, one digit; and such a
  string that \<^verbatim>\<open>float\<close> reads as a finite number.
\<close>

definition one_decimal :: "string \<Rightarrow> bool" where
  "one_decimal v =
     (case rev v of
        f # p # ip \<Rightarrow> is_digit f \<and> p = CHR ''.'' \<and> ip \<noteq> [] \<and> list_all is_digit ip
      | _ \<Rightarrow> False)"

definition parses_one_decimal :: "string \<Rightarrow> bool" where
  "parses_one_decimal v =
     (one_decimal v \<and> (case py_float v of Inr (Fin x) \<Rightarrow> True | _ \<Rightarrow> False))"

text \<open>
  The invariant of the updater: three sensors, each value a numeral \<open>tenths n\<close> with
  \<open>n / 10\<close> at most \<open>2\<^sup>5\<^sup>2\<close>, and the thread alive. (From \<open>2\<^sup>5\<^sup>2\<close> on, adding 0.1 to a float
  rounds back to the float, so the bound is never left.)
\<close>

definition bounded_values :: "sensor list \<Rightarrow> bool" where
  "bounded_values xs =
     (length xs = 3 \<and>
      (\<forall>d \<in> set xs. \<exists>n. n \<le> 10 * 2 ^ 52 \<and> map_of d ''Value'' = Some (tenths n)))"

definition healthy :: "emulator \<Rightarrow> bool" where
  "healthy s = (died s = None \<and> bounded_values (sensors s))"

section \<open>Properties of the receiver\<close>

subsection \<open>Digits, padding and the timestamp\<close>

lemma is_digit_digit_char: "d < 10 \<Longrightarrow> is_digit (digit_char d)"
proof -
  assume "d < 10"
  then have "d \<in> {0, 1, 2, 3, 4, 5, 6, 7, 8, 9}" by auto
  then show ?thesis
    by (auto simp: is_digit_def digit_val_def digit_char_def digit_table_def)
qed

lemma is_digit_zero: "is_digit (CHR ''0'')"
  by (simp add: is_digit_def digit_val_def digit_table_def)

lemma digits_show_nat: "list_all is_digit (show_nat n)"
  by (induction n rule: show_nat.induct)
     (subst show_nat.simps, simp add: is_digit_digit_char)

lemma length_show_nat: "n < 10 ^ w \<Longrightarrow> 0 < w \<Longrightarrow> length (show_nat n) \<le> w"
proof (induction n arbitrary: w rule: show_nat.induct)
  case (1 n)
  show ?case
  proof (cases "n < 10")
    case True
    then show ?thesis using "1.prems" by (simp add: show_nat.simps)
  next
    case False
    have "w \<noteq> Suc 0" using False "1.prems"(1) by auto
    then obtain v where w: "w = Suc v" and v: "0 < v"
      using "1.prems"(2) by (cases w) auto
    have "n div 10 < 10 ^ v"
      using "1.prems"(1) w by (simp add: less_mult_imp_div_less mult.commute)
    then have "length (show_nat (n div 10)) \<le> v"
      using "1.IH" [OF False _ v] by simp
    then show ?thesis using False w by (simp add: show_nat.simps [of n])
  qed
qed

lemma length_zero_pad: "n < 10 ^ w \<Longrightarrow> 0 < w \<Longrightarrow> length (zero_pad w n) = w"
  using length_show_nat [of n w] by (simp add: zero_pad_def)

lemma digits_zero_pad: "list_all is_digit (zero_pad w n)"
proof -
  have "\<forall>c \<in> set (show_nat n). is_digit c"
    using digits_show_nat [of n] by (simp add: list_all_iff)
  then show ?thesis
    by (auto simp: zero_pad_def list_all_iff is_digit_zero)
qed

lemma timestamp_shape:
  assumes "four_digit_year dt"
  shows "is_timestamp (strftime dt ''%Y-%m-%d %H:%M:%S'')"
proof -
  obtain Y m d H M S where parts:
    "Y = zero_pad 4 (year dt)" "m = zero_pad 2 (month dt)" "d = zero_pad 2 (day dt)"
    "H = zero_pad 2 (hour dt)" "M = zero_pad 2 (minute dt)" "S = zero_pad 2 (second dt)"
    by simp
  have len: "length Y = 4" "length m = 2" "length d = 2"
    "length H = 2" "length M = 2" "length S = 2"
    using assms by (simp_all add: parts four_digit_year_def length_zero_pad)
  have dig: "list_all is_digit Y" "list_all is_digit m" "list_all is_digit d"
    "list_all is_digit H" "list_all is_digit M" "list_all is_digit S"
    by (simp_all add: parts digits_zero_pad)
  obtain y1 y2 y3 y4 where Y: "Y = [y1, y2, y3, y4]"
    using len(1) by (auto simp: length_Suc_conv numeral_eq_Suc)
  obtain m1 m2 where m: "m = [m1, m2]"
    using len(2) by (auto simp: length_Suc_conv numeral_eq_Suc)
  obtain d1 d2 where d: "d = [d1, d2]"
    using len(3) by (auto simp: length_Suc_conv numeral_eq_Suc)
  obtain H1 H2 where H: "H = [H1, H2]"
    using len(4) by (auto simp: length_Suc_conv numeral_eq_Suc)
  obtain M1 M2 where M: "M = [M1, M2]"
    using len(5) by (auto simp: length_Suc_conv numeral_eq_Suc)
  obtain S1 S2 where S: "S = [S1, S2]"
    using len(6) by (auto simp: length_Suc_conv numeral_eq_Suc)
  have "strftime dt ''%Y-%m-%d %H:%M:%S'' =
      Y @ ''-'' @ m @ ''-'' @ d @ '' '' @ H @ '':'' @ M @ '':'' @ S"
    by (simp add: parts)
  then show ?thesis
    using dig unfolding Y m d H M S by (simp add: is_timestamp_def)
qed

subsection \<open>The view on a list of mappings\<close>

lemma get_or_NA:
  "(case map_of kvs k of None \<Rightarrow> JStr ''N/A'' | Some v \<Rightarrow> v) = field_or_NA kvs k"
proof (cases "map_of kvs k")
  case None
  then have "k \<notin> fst ` set kvs" by (simp add: map_of_eq_None_iff)
  with None show ?thesis by (simp add: field_or_NA_def)
next
  case (Some v)
  then have "k \<in> fst ` set kvs" by (metis map_of_eq_None_iff option.distinct(1))
  with Some show ?thesis by (simp add: field_or_NA_def)
qed

lemma sensor_line_object: "sensor_line (JObj kvs) = Inr (reading_line kvs)"
  by (simp add: sensor_line_def reading_line_def get_or_NA)

lemma sensor_line_not_object: "\<not> is_object x \<Longrightarrow> sensor_line x = Inl AttributeError"
  by (cases x) (simp_all add: sensor_line_def)

lemma print_sensors_objects:
  "print_sensors stdout (map JObj kvss) out =
     (out @ takeWhile (printable stdout) (map reading_line kvss),
      if list_all (printable stdout) (map reading_line kvss) then None
      else Some UnicodeEncodeError)"
  by (induction kvss arbitrary: out) (simp_all add: sensor_line_object py_print_def)


lemma objects_map: "list_all is_object xs \<Longrightarrow> \<exists>kvss. xs = map JObj kvss"
proof (induction xs)
  case Nil
  then show ?case by simp
next
  case (Cons x xs)
  then obtain kvss where "xs = map JObj kvss" by auto
  moreover from Cons.prems obtain kvs where "x = JObj kvs" by (cases x) auto
  ultimately have "x # xs = map JObj (kvs # kvss)" by simp
  then show ?case ..
qed

lemma header_printed:
  "py_print stdout [Lit a, Lit b, Lit c] [] = Inr [[Lit a, Lit b, Lit c]]"
  by (simp add: py_print_def printable_def)

lemma receive_data_objects:
  "kvss \<noteq> [] \<Longrightarrow>
     receive_data stdout now (Inr (JArr (map JObj kvss))) =
       ([Lit ''Received data at '', Lit (strftime now ''%Y-%m-%d %H:%M:%S''), Lit '':'']
          # takeWhile (printable stdout) (map reading_line kvss),
        if list_all (printable stdout) (map reading_line kvss)
        then Inr \<lparr>body = JObj [(''status'', JStr ''success'')], status = 200\<rparr>
        else Inl UnicodeEncodeError)"
  by (simp add: receive_data_def header_printed print_sensors_objects del: strftime.simps)

lemma receive_data_falsy:
  "\<not> truthy d \<Longrightarrow>
     receive_data stdout now (Inr d) =
       ([], Inr \<lparr>body = JObj [(''status'', JStr ''no data received'')], status = 400\<rparr>)"
  by (simp add: receive_data_def)





text \<open>
  The claim that every non-empty array of mappings is answered with 200 fails where a
  value cannot be printed. The body \<^verbatim>\<open>[{"Name": "<U+D800>"}]\<close>, with the name written as a
  JSON escape, decodes to a list of one dict whose name is a lone surrogate. On a UTF-8
  stream the timestamp line is printed, the \<^verbatim>\<open>print\<close> of line 17 raises
  UnicodeEncodeError, nothing catches it, and the view returns no response.
\<close>

theorem receive_data_surrogate_counterexample:
  "receive_data utf8_stdout
     \<lparr>year = 2024, month = 3, day = 9, hour = 7, minute = 5, second = 0\<rparr>
     (Inr (JArr [JObj [(''Name'', JStr [CHR 0xED, CHR 0xA0, CHR 0x80])]])) =
     ([[Lit ''Received data at '', Lit ''2024-03-09 07:05:00'', Lit '':'']],
      Inl UnicodeEncodeError)"
  by (simp add: receive_data_def py_print_def printable_def sensor_line_def zero_pad_def
      show_nat.simps digit_char_def digit_table_def)

text \<open>
  Claim C1, as amended. Take a POST whose body decodes to a non-empty array of mappings.
  If the standard output stream can represent the values that the lines show, the view
  answers with status 200 and the body \<^verbatim>\<open>{"status": "success"}\<close>, and what is printed is
  one line with the timestamp, then one line for each element of the array, in order,
  showing its \<^verbatim>\<open>ExternalId\<close>, \<^verbatim>\<open>Name\<close>, \<^verbatim>\<open>SensorTag\<close> and \<^verbatim>\<open>Value\<close>, with \<^verbatim>\<open>N/A\<close> for a
  key the element does not have. If it cannot, the timestamp line and the lines of the
  elements before the first such value are printed and the view ends with
  UnicodeEncodeError, returning no response. The timestamp has the shape
  \<^verbatim>\<open>YYYY-MM-DD HH:MM:SS\<close> whenever the clock's year has four digits.
\<close>

theorem receive_data_list_of_mappings:
  "kvss \<noteq> [] \<Longrightarrow>
     (list_all (printable stdout) (map reading_line kvss) \<longrightarrow>
        receive_data stdout now (Inr (JArr (map JObj kvss))) =
          ([Lit ''Received data at '', Lit (strftime now ''%Y-%m-%d %H:%M:%S''), Lit '':'']
             # map reading_line kvss,
           Inr \<lparr>body = JObj [(''status'', JStr ''success'')], status = 200\<rparr>)) \<and>
     (\<not> list_all (printable stdout) (map reading_line kvss) \<longrightarrow>
        receive_data stdout now (Inr (JArr (map JObj kvss))) =
          ([Lit ''Received data at '', Lit (strftime now ''%Y-%m-%d %H:%M:%S''), Lit '':'']
             # takeWhile (printable stdout) (map reading_line kvss),
           Inl UnicodeEncodeError)) \<and>
     (four_digit_year now \<longrightarrow> is_timestamp (strftime now ''%Y-%m-%d %H:%M:%S''))"
proof -
  assume k: "kvss \<noteq> []"
  have "takeWhile (printable stdout) (map reading_line kvss) = map reading_line kvss"
    if "list_all (printable stdout) (map reading_line kvss)"
    using that by (simp add: list_all_iff)
  then show ?thesis
    using receive_data_objects [OF k, of stdout now] timestamp_shape [of now]
    by (simp del: strftime.simps)
qed

text \<open>
  The theorem at the request of the interface's first test, followed by a reading that
  has only a name, on a UTF-8 stream at 2024-03-09 07:05:00: the three lines as they are
  printed.
\<close>

theorem receive_data_list_of_mappings_witness:
  "[[(''ExternalId'', JStr ''1''), (''Name'', JStr ''Temp''), (''Value'', JStr ''20''),
     (''SensorTag'', JStr ''T1'')], [(''Name'', JStr ''Bare'')]] \<noteq> [] \<and>
   list_all (printable utf8_stdout)
     (map reading_line
       [[(''ExternalId'', JStr ''1''), (''Name'', JStr ''Temp''), (''Value'', JStr ''20''),
         (''SensorTag'', JStr ''T1'')], [(''Name'', JStr ''Bare'')]]) \<and>
   four_digit_year \<lparr>year = 2024, month = 3, day = 9, hour = 7, minute = 5, second = 0\<rparr> \<and>
   is_timestamp ''2024-03-09 07:05:00'' \<and>
   snd (receive_data utf8_stdout
     \<lparr>year = 2024, month = 3, day = 9, hour = 7, minute = 5, second = 0\<rparr>
     (Inr (JArr [JObj [(''ExternalId'', JStr ''1''), (''Name'', JStr ''Temp''),
                      (''Value'', JStr ''20''), (''SensorTag'', JStr ''T1'')],
                 JObj [(''Name'', JStr ''Bare'')]]))) =
     Inr \<lparr>body = JObj [(''status'', JStr ''success'')], status = 200\<rparr> \<and>
   map line_text
     (fst (receive_data utf8_stdout
       \<lparr>year = 2024, month = 3, day = 9, hour = 7, minute = 5, second = 0\<rparr>
       (Inr (JArr [JObj [(''ExternalId'', JStr ''1''), (''Name'', JStr ''Temp''),
                        (''Value'', JStr ''20''), (''SensorTag'', JStr ''T1'')],
                   JObj [(''Name'', JStr ''Bare'')]])))) =
     [Some ''Received data at 2024-03-09 07:05:00:'',
      Some ''Sensor ID: 1, Sensor Name: Temp, Sensor Tag: T1, Value: 20'',
      Some ''Sensor ID: N/A, Sensor Name: Bare, Sensor Tag: N/A, Value: N/A'']"
  using receive_data_list_of_mappings
    [of "[[(''ExternalId'', JStr ''1''), (''Name'', JStr ''Temp''), (''Value'', JStr ''20''),
           (''SensorTag'', JStr ''T1'')], [(''Name'', JStr ''Bare'')]]"
        utf8_stdout
        "\<lparr>year = 2024, month = 3, day = 9, hour = 7, minute = 5, second = 0\<rparr>"]
  by (simp add: four_digit_year_def reading_line_def field_or_NA_def zero_pad_def
      show_nat.simps digit_char_def digit_table_def printable_def)

text \<open>
  Claim C3. A POST whose decoded body is \<^verbatim>\<open>null\<close>, the empty object, the empty array or
  the empty string is answered with status 400 and the body
  \<^verbatim>\<open>{"status": "no data received"}\<close>, and nothing is printed.
\<close>

theorem receive_data_empty_body:
  "receive_data stdout now (Inr JNull) =
     ([], Inr \<lparr>body = JObj [(''status'', JStr ''no data received'')], status = 400\<rparr>) \<and>
   receive_data stdout now (Inr (JObj [])) =
     ([], Inr \<lparr>body = JObj [(''status'', JStr ''no data received'')], status = 400\<rparr>) \<and>
   receive_data stdout now (Inr (JArr [])) =
     ([], Inr \<lparr>body = JObj [(''status'', JStr ''no data received'')], status = 400\<rparr>) \<and>
   receive_data stdout now (Inr (JStr [])) =
     ([], Inr \<lparr>body = JObj [(''status'', JStr ''no data received'')], status = 400\<rparr>)"
  by (simp add: receive_data_falsy)

subsection \<open>The status\<close>



text \<open>
  Claim C9. Some bodies are truthy and are not lists of mappings, and on them the view
  raises instead of returning a response: a non-empty object is iterated by its keys,
  which are strings and have no \<^verbatim>\<open>get\<close> (AttributeError); a number is not iterable
  (TypeError); an array that holds a string fails at that element (AttributeError).
\<close>

theorem receive_data_raises:
  "truthy (JObj [(''Name'', JStr ''Temp'')]) \<and>
   snd (receive_data stdout now (Inr (JObj [(''Name'', JStr ''Temp'')]))) = Inl AttributeError \<and>
   truthy (JInt 5) \<and>
   snd (receive_data stdout now (Inr (JInt 5))) = Inl TypeError \<and>
   truthy (JArr [JStr ''x'']) \<and>
   snd (receive_data stdout now (Inr (JArr [JStr ''x'']))) = Inl AttributeError"
  by (simp add: receive_data_def header_printed sensor_line_def del: strftime.simps)

subsection \<open>Bodies that are absent or malformed\<close>

text \<open>
  Line 8 evaluates \<^verbatim>\<open>request.json\<close>, and nothing in the view catches what that raises.
  Flask decodes the body there: for a body that is not well-formed JSON (an empty one
  included) sent as \<^verbatim>\<open>application/json\<close> it calls \<^verbatim>\<open>on_json_loading_failed\<close>, which
  aborts the request with 400 Bad Request; for a request whose content type is not JSON
  it gives \<^verbatim>\<open>None\<close> before Flask 2.1 and aborts the request in later versions (with 400,
  and with 415 from Flask 2.3). The claim that such a request is answered by the view's
  own \<^verbatim>\<open>{"status": "no data received"}\<close> is therefore not what the code does once
  \<^verbatim>\<open>request.json\<close> raises: below, the request whose \<^verbatim>\<open>request.json\<close> aborts with 400
  leaves the view with that exception, and no response of the view exists.
\<close>

theorem receive_data_bad_request_counterexample:
  "receive_data utf8_stdout
     \<lparr>year = 2024, month = 3, day = 9, hour = 7, minute = 5, second = 0\<rparr>
     (Inl (HTTPException 400)) = ([], Inl (HTTPException 400)) \<and>
   snd (receive_data utf8_stdout
     \<lparr>year = 2024, month = 3, day = 9, hour = 7, minute = 5, second = 0\<rparr>
     (Inl (HTTPException 400))) \<noteq>
     Inr \<lparr>body = JObj [(''status'', JStr ''no data received'')], status = 400\<rparr>"
  by (simp add: receive_data_def)

text \<open>
  Claim C4, as amended. When \<^verbatim>\<open>request.json\<close> evaluates to \<^verbatim>\<open>None\<close> (Flask's value for
  a JSON \<^verbatim>\<open>null\<close> and, before Flask 2.1, for a body sent without a JSON content type) the
  view prints nothing and answers 400 with \<^verbatim>\<open>{"status": "no data received"}\<close>. When
  evaluating \<^verbatim>\<open>request.json\<close> raises, the view prints nothing and ends with that same
  exception: it classifies no error itself, and the error response is Flask's.
\<close>

theorem receive_data_none_or_aborted:
  "receive_data stdout now (Inr JNull) =
     ([], Inr \<lparr>body = JObj [(''status'', JStr ''no data received'')], status = 400\<rparr>) \<and>
   receive_data stdout now (Inl e) = ([], Inl e)"
  by (simp add: receive_data_def)

section \<open>Properties of the emulator\<close>

lemma round_half_even_error: "\<bar>of_int (round_half_even z) - z\<bar> \<le> 1 / 2"
proof -
  have "of_int \<lfloor>z\<rfloor> \<le> z" "z < of_int \<lfloor>z\<rfloor> + 1" by linarith+
  then show ?thesis by (auto simp: round_half_even_def Let_def)
qed

lemma round_half_even_le: "z \<le> of_int N \<Longrightarrow> round_half_even z \<le> N"
proof -
  assume z: "z \<le> of_int N"
  then have f: "\<lfloor>z\<rfloor> \<le> N" by (simp add: floor_le_iff) 
  show ?thesis
  proof (cases "\<lfloor>z\<rfloor> = N")
    case True
    then have "of_int N \<le> z" by (metis of_int_floor_le)
    with z have "z = of_int N" by simp
    then show ?thesis by (simp add: round_half_even_def)
  next
    case False
    with f have "\<lfloor>z\<rfloor> + 1 \<le> N" by simp
    then show ?thesis by (auto simp: round_half_even_def Let_def)
  qed
qed

lemma round_half_even_ge: "of_int N \<le> z \<Longrightarrow> N \<le> round_half_even z"
proof -
  assume "of_int N \<le> z"
  then have "N \<le> \<lfloor>z\<rfloor>" by (simp add: le_floor_iff)
  then show ?thesis by (auto simp: round_half_even_def Let_def)
qed

lemma round_half_even_near: "\<bar>z - of_int N\<bar> < 1 / 2 \<Longrightarrow> round_half_even z = N"
proof -
  assume a: "\<bar>z - of_int N\<bar> < 1 / 2"
  show ?thesis
  proof (cases "of_int N \<le> z")
    case True
    with a have "\<lfloor>z\<rfloor> = N" by (intro floor_unique) auto
    with a True show ?thesis by (auto simp: round_half_even_def Let_def)
  next
    case False
    with a have f: "\<lfloor>z\<rfloor> = N - 1" by (intro floor_unique) auto
    with a False show ?thesis by (auto simp: round_half_even_def Let_def)
  qed
qed

lemma two_powi_nat: "0 \<le> n \<Longrightarrow> (of_int (2 ^ nat n) :: rat) = 2 powi n"
  by (simp add: power_int_def)

lemma two_powi_le: "0 \<le> n \<Longrightarrow> 2 ^ nat n \<le> p \<Longrightarrow> 2 powi n \<le> (of_int p :: rat)"
  by (metis two_powi_nat of_int_le_iff)

lemma two_powi_gt: "0 \<le> n \<Longrightarrow> p < 2 ^ nat n \<Longrightarrow> (of_int p :: rat) < 2 powi n"
  by (metis two_powi_nat of_int_less_iff)

lemma two_powi_less_exp: "(2::rat) powi a < 2 powi b \<Longrightarrow> a < b"
proof (rule ccontr)
  assume l: "(2::rat) powi a < 2 powi b" and "\<not> a < b"
  then have "b \<le> a" by simp
  then have "(2::rat) powi b \<le> 2 powi a" by (intro power_int_increasing) auto
  with l show False by simp
qed

lemma binade_bounds:
  assumes "0 < x"
  shows "2 powi (binade x) \<le> x" and "x < 2 powi (binade x + 1)"
proof -
  define p where "p = fst (quotient_of x)"
  define q where "q = snd (quotient_of x)"
  have q: "0 < q" by (simp add: q_def quotient_of_denom_pos')
  have x: "x = of_int p / of_int q"
    by (simp add: p_def q_def quotient_of_div)
  with assms q have p: "0 < p" by (simp add: zero_less_divide_iff)
  define k where "k = bitlen p - bitlen q"
  have bp: "1 \<le> bitlen p" and bq: "1 \<le> bitlen q"
    using p q by (simp_all add: bitlen_alt_def)
  have P: "2 powi (bitlen p - 1) \<le> (of_int p :: rat)" "(of_int p :: rat) < 2 powi (bitlen p)"
    using bitlen_bounds [OF p] bp by (simp_all add: two_powi_le two_powi_gt)
  have Q: "2 powi (bitlen q - 1) \<le> (of_int q :: rat)" "(of_int q :: rat) < 2 powi (bitlen q)"
    using bitlen_bounds [OF q] bq by (simp_all add: two_powi_le two_powi_gt)
  have qpos: "(0::rat) < of_int q" using q by simp
  have up: "x < 2 powi (k + 1)"
  proof -
    have "x * 2 powi (bitlen q - 1) \<le> x * of_int q"
      using Q(1) assms by (simp add: mult_left_mono)
    also have "\<dots> = of_int p" using x qpos by simp
    also have "\<dots> < 2 powi (bitlen p)" by (rule P(2))
    also have "\<dots> = 2 powi (k + 1) * 2 powi (bitlen q - 1)"
      by (simp add: k_def flip: power_int_add)
    finally show ?thesis by simp
  qed
  have lo: "2 powi (k - 1) < x"
  proof -
    have "(2::rat) powi (k - 1) * of_int q < 2 powi (k - 1) * 2 powi (bitlen q)"
      using Q(2) by simp
    also have "\<dots> = 2 powi (bitlen p - 1)"
      by (simp add: k_def flip: power_int_add)
    also have "\<dots> \<le> of_int p" by (rule P(1))
    also have "\<dots> = x * of_int q" using x qpos by simp
    finally show ?thesis using qpos by simp
  qed
  have b: "binade x = (if 2 powi k \<le> x then k else k - 1)"
    by (simp add: binade_def k_def p_def q_def)
  show "2 powi (binade x) \<le> x" using lo by (simp add: b)
  show "x < 2 powi (binade x + 1)" using up by (simp add: b)
qed

lemma binade_less: "0 < x \<Longrightarrow> x < 2 powi k \<Longrightarrow> binade x < k"
  using binade_bounds(1) [of x] two_powi_less_exp [of "binade x" k] by simp

lemma binade_le: "0 < x \<Longrightarrow> x \<le> 2 powi k \<Longrightarrow> binade x \<le> k"
proof -
  assume "0 < x" "x \<le> 2 powi k"
  then have "x < 2 powi (k + 1)"
    using power_int_strict_increasing [of k "k + 1" "2::rat"] by simp
  with \<open>0 < x\<close> have "binade x < k + 1" by (rule binade_less)
  then show ?thesis by simp
qed

lemma binade_ge: "0 < x \<Longrightarrow> 2 powi k \<le> x \<Longrightarrow> k \<le> binade x"
  using binade_bounds(2) [of x] two_powi_less_exp [of k "binade x + 1"] by simp

lemma to_double_le:
  assumes "0 \<le> x" "x \<le> 2 powi k" "- 1022 \<le> k" "k \<le> 1023"
  shows "\<exists>r. to_double x = Fin r \<and> 0 \<le> r \<and> r \<le> 2 powi k"
proof (cases "x = 0")
  case True
  then show ?thesis by (simp add: to_double_def)
next
  case False
  with assms(1) have pos: "0 < x" by simp
  define e where "e = max (binade x) (- 1022)"
  define u :: rat where "u = 2 powi (e - 52)"
  define m where "m = round_half_even (x / u)"
  have e: "e \<le> k" using binade_le [OF pos assms(2)] assms(3) by (simp add: e_def)
  have u: "0 < u" by (simp add: u_def)
  have "x / u \<le> 2 powi k / u" using assms(2) u by (simp add: divide_right_mono)
  also have "\<dots> = 2 powi (k - e + 52)"
    by (simp add: u_def power_int_diff power_int_add)
  also have "\<dots> = of_int (2 ^ nat (k - e + 52))"
    using e by (simp add: power_int_def)
  finally have "m \<le> 2 ^ nat (k - e + 52)"
    unfolding m_def by (rule round_half_even_le)
  then have "(of_int m :: rat) \<le> of_int (2 ^ nat (k - e + 52))"
    by (simp only: of_int_le_iff)
  also have "\<dots> = 2 powi (k - e + 52)" using e by (simp add: power_int_def)
  finally have "of_int m * u \<le> 2 powi (k - e + 52) * u"
    using u by (simp add: mult_right_mono)
  also have "\<dots> = 2 powi k" by (simp add: u_def flip: power_int_add)
  finally have upper: "of_int m * u \<le> 2 powi k" .
  have "(of_int 0 :: rat) \<le> x / u" using pos u by simp
  then have "0 \<le> m" unfolding m_def by (rule round_half_even_ge)
  then have lower: "0 \<le> of_int m * u" using u by simp
  have "(2::rat) powi k < 2 powi 1024"
    using assms(4) by (intro power_int_strict_increasing) auto
  with upper have "\<not> 2 powi 1024 \<le> of_int m * u" by simp
  then have "to_double x = Fin (of_int m * u)"
    using False by (simp add: to_double_def Let_def m_def u_def e_def)
  with upper lower show ?thesis by simp
qed

lemma to_double_error:
  assumes "0 < x" "x < 2 powi k" "- 1021 \<le> k" "k \<le> 1023"
  shows "\<exists>r. to_double x = Fin r \<and> \<bar>r - x\<bar> \<le> 2 powi (k - 54)"
proof -
  define e where "e = max (binade x) (- 1022)"
  define u :: rat where "u = 2 powi (e - 52)"
  define m where "m = round_half_even (x / u)"
  have e: "e \<le> k - 1" using binade_less [OF assms(1,2)] assms(3) by (simp add: e_def)
  have u: "0 < u" by (simp add: u_def)
  obtain r where r: "to_double x = Fin r"
    using to_double_le [of x k] assms by auto
  then have r_eq: "r = of_int m * u"
    using assms(1) by (auto simp: to_double_def Let_def m_def u_def e_def split: if_splits)
  have "\<bar>of_int m - x / u\<bar> \<le> 1 / 2"
    unfolding m_def by (rule round_half_even_error)
  then have "\<bar>of_int m - x / u\<bar> * u \<le> 1 / 2 * u"
    using u by (simp add: mult_right_mono)
  moreover have "\<bar>of_int m - x / u\<bar> * u = \<bar>r - x\<bar>"
  proof -
    have "\<bar>of_int m - x / u\<bar> * u = \<bar>(of_int m - x / u) * u\<bar>"
      using u by (simp add: abs_mult)
    also have "(of_int m - x / u) * u = r - x"
      using u by (simp add: r_eq algebra_simps)
    finally show ?thesis .
  qed
  moreover have "1 / 2 * u = 2 powi (e - 53)"
    by (simp add: u_def power_int_diff)
  moreover have "(2::rat) powi (e - 53) \<le> 2 powi (k - 54)"
    using e by (intro power_int_increasing) auto
  ultimately have "\<bar>r - x\<bar> \<le> 2 powi (k - 54)" by simp
  with r show ?thesis by blast
qed

lemma to_double_at_2_52:
  assumes "2 ^ 52 \<le> s" "s < 2 ^ 52 + 1 / 2"
  shows "to_double s = Fin (2 ^ 52)"
proof -
  have pos: "0 < s" using assms(1) by (rule less_le_trans [rotated]) simp
  have "(2::rat) powi 52 \<le> s" using assms(1) by simp
  then have "52 \<le> binade s" by (rule binade_ge [OF pos])
  moreover have "s < 2 powi 53" using assms(2) by simp
  then have "binade s < 53" by (rule binade_less [OF pos])
  ultimately have b: "binade s = 52" by simp
  have "\<bar>s - of_int (2 ^ 52)\<bar> < 1 / 2" using assms by simp
  then have "round_half_even s = 2 ^ 52" by (rule round_half_even_near)
  then show ?thesis using pos by (simp add: to_double_def b)
qed

lemma digit_val_digit_char: "d < 10 \<Longrightarrow> digit_val (digit_char d) = Some d"
proof -
  assume "d < 10"
  then have "d \<in> {0, 1, 2, 3, 4, 5, 6, 7, 8, 9}" by auto
  then show ?thesis
    by (auto simp: digit_val_def digit_char_def digit_table_def)
qed

lemma read_digits_append:
  "read_digits acc (xs @ ys) =
     (case read_digits acc xs of None \<Rightarrow> None | Some a \<Rightarrow> read_digits a ys)"
  by (induction xs arbitrary: acc) (auto split: option.splits)

lemma read_digits_show_nat: "read_digits 0 (show_nat n) = Some n"
proof (induction n rule: show_nat.induct)
  case (1 n)
  show ?case
  proof (cases "n < 10")
    case True
    then show ?thesis by (simp add: show_nat.simps digit_val_digit_char)
  next
    case False
    then have "read_digits 0 (show_nat (n div 10)) = Some (n div 10)" by (rule "1.IH")
    then show ?thesis
      using False
      by (subst show_nat.simps) (simp add: read_digits_append digit_val_digit_char)
  qed
qed

lemma dot_not_digit: "\<not> is_digit (CHR ''.'')"
  by (simp add: is_digit_def digit_val_def digit_table_def)

lemma show_nat_no_dot: "c \<in> set (show_nat n) \<Longrightarrow> c \<noteq> CHR ''.''"
  using digits_show_nat [of n] dot_not_digit by (auto simp: list_all_iff)

lemma show_nat_not_Nil: "show_nat n \<noteq> []"
  by (subst show_nat.simps) simp

lemma py_float_tenths: "py_float (tenths d) = Inr (to_double (of_nat d / 10))"
proof -
  let ?ip = "show_nat (d div 10)"
  let ?f = "digit_char (d mod 10)"
  have tw: "takeWhile (\<lambda>c. c \<noteq> CHR ''.'') (tenths d) = ?ip"
    by (simp add: tenths_def show_nat_no_dot)
  have dw: "dropWhile (\<lambda>c. c \<noteq> CHR ''.'') (tenths d) = CHR ''.'' # [?f]"
    by (simp add: tenths_def show_nat_no_dot)
  have "CHR ''.'' \<in> set (tenths d)" by (simp add: tenths_def)
  then have ni: "tenths d \<noteq> ''inf''" by auto
  have rd: "read_digits 0 (?ip @ [?f]) = Some d"
    by (simp add: read_digits_append read_digits_show_nat digit_val_digit_char)
  show ?thesis
    by (simp add: py_float_def ni tw dw rd show_nat_not_Nil)
qed

lemma tenth_double:
  obtains c where "to_double (1 / 10) = Fin c" "\<bar>c - 1 / 10\<bar> \<le> 2 powi (- 57)" "0 \<le> c" "c \<le> 1 / 8"
proof -
  obtain c where c: "to_double (1 / 10) = Fin c" "\<bar>c - 1 / 10\<bar> \<le> 2 powi (- 3 - 54)"
    using to_double_error [of "1 / 10" "- 3"] by auto
  obtain c' where c': "to_double (1 / 10) = Fin c'" "0 \<le> c'" "c' \<le> 2 powi (- 3)"
    using to_double_le [of "1 / 10" "- 3"] by auto
  from c(1) c'(1) have "c' = c" by simp
  with c c' that show ?thesis by simp
qed

lemma incremented_exact:
  assumes "d < 10 ^ 15"
  shows "incremented (tenths d) = Inr (tenths (d + 1))"
proof -
  define x :: rat where "x = of_nat d / 10"
  have x0: "0 \<le> x" by (simp add: x_def)
  have "(of_nat d :: rat) < of_nat (10 ^ 15)" using assms by (simp only: of_nat_less_iff)
  then have xlt: "x < 2 powi 47" by (simp add: x_def)
  obtain a where a: "to_double x = Fin a" "0 \<le> a" "a \<le> 2 powi 47"
    using to_double_le [of x 47] x0 xlt by auto
  have aerr: "\<bar>a - x\<bar> \<le> 2 powi (- 7)"
  proof (cases "x = 0")
    case True
    with a(1) show ?thesis by (simp add: to_double_def)
  next
    case False
    with x0 have "0 < x" by simp
    then obtain a' where "to_double x = Fin a'" "\<bar>a' - x\<bar> \<le> 2 powi (47 - 54)"
      using to_double_error [of x 47] xlt by auto
    with a(1) show ?thesis by simp
  qed
  obtain c where c: "to_double (1 / 10) = Fin c" "\<bar>c - 1 / 10\<bar> \<le> 2 powi (- 57)"
    "0 \<le> c" "c \<le> 1 / 8"
    by (rule tenth_double)
  have "(2::rat) powi (- 57) < 1 / 10" by simp
  with c(2) have cpos: "0 < c" by linarith
  define s where "s = a + c"
  have spos: "0 < s" using a(2) cpos by (simp add: s_def)
  have slt: "s < 2 powi 48" using a(3) c(4) by (simp add: s_def)
  obtain y where y: "to_double s = Fin y" "\<bar>y - s\<bar> \<le> 2 powi (48 - 54)"
    using to_double_error [of s 48] spos slt by auto
  have "\<bar>y - (x + 1 / 10)\<bar> \<le> \<bar>y - s\<bar> + \<bar>a - x\<bar> + \<bar>c - 1 / 10\<bar>"
    by (simp add: s_def)
  also have "\<dots> \<le> 2 powi (- 6) + 2 powi (- 7) + 2 powi (- 57)"
    using y(2) aerr c(2) by simp
  also have "\<dots> < 1 / 20" by simp
  finally have e: "\<bar>y - (x + 1 / 10)\<bar> < 1 / 20" .
  have "(of_int (int (d + 1)) :: rat) = x * 10 + 1" by (simp add: x_def)
  with e have "\<bar>y * 10 - of_int (int (d + 1))\<bar> < 1 / 2" by linarith
  then have "round_half_even (y * 10) = int (d + 1)" by (rule round_half_even_near)
  moreover have "nat (int (d + 1)) = d + 1" by (rule nat_int)
  ultimately have "format_1f (Fin y) = tenths (d + 1)" by (simp only: format_1f.simps)
  then show ?thesis
    using a(1) c(1) y(1) by (simp add: incremented_def py_float_tenths s_def flip: x_def)
qed

lemma incremented_bounded:
  assumes "d \<le> 10 * 2 ^ 52"
  shows "\<exists>d'. incremented (tenths d) = Inr (tenths d') \<and> d' \<le> 10 * 2 ^ 52"
proof -
  define x :: rat where "x = of_nat d / 10"
  have x0: "0 \<le> x" by (simp add: x_def)
  have "(of_nat d :: rat) \<le> of_nat (10 * 2 ^ 52)" using assms by (simp only: of_nat_le_iff)
  then have xle: "x \<le> 2 powi 52" by (simp add: x_def)
  obtain a where a: "to_double x = Fin a" "0 \<le> a" "a \<le> 2 powi 52"
    using to_double_le [of x 52] x0 xle by auto
  obtain c where c: "to_double (1 / 10) = Fin c" "\<bar>c - 1 / 10\<bar> \<le> 2 powi (- 57)"
    "0 \<le> c" "c \<le> 1 / 8"
    by (rule tenth_double)
  define s where "s = a + c"
  have s0: "0 \<le> s" using a(2) c(3) by (simp add: s_def)
  have "\<exists>y. to_double s = Fin y \<and> 0 \<le> y \<and> y \<le> 2 ^ 52"
  proof (cases "s \<le> 2 ^ 52")
    case True
    then show ?thesis using to_double_le [of s 52] s0 by simp
  next
    case False
    moreover have "s < 2 ^ 52 + 1 / 2" using a(3) c(4) by (simp add: s_def)
    ultimately have "to_double s = Fin (2 ^ 52)" by (intro to_double_at_2_52) auto
    then show ?thesis by simp
  qed
  then obtain y where y: "to_double s = Fin y" "0 \<le> y" "y \<le> 2 ^ 52" by blast
  define t where "t = round_half_even (y * 10)"
  have "y * 10 \<le> of_int (10 * 2 ^ 52)" using y(3) by simp
  then have "t \<le> 10 * 2 ^ 52" unfolding t_def by (rule round_half_even_le)
  then have "nat t \<le> 10 * 2 ^ 52" by simp
  moreover have "incremented (tenths d) = Inr (tenths (nat t))"
    using a(1) c(1) y(1) by (simp add: incremented_def py_float_tenths s_def t_def flip: x_def)
  ultimately show ?thesis by blast
qed

lemma filter_update:
  "filter (\<lambda>kv. fst kv \<noteq> k) (AList.update k v al) = filter (\<lambda>kv. fst kv \<noteq> k) al"
  by (induction al) auto

lemma keys_update:
  "map_of al k = Some w \<Longrightarrow> map fst (AList.update k v al) = map fst al"
  by (induction al) (auto split: if_splits)

lemma map_of_update: "map_of (AList.update k v al) k = Some v"
  by (induction al) auto

lemma map_of_filter_other:
  "k \<noteq> k' \<Longrightarrow> map_of (filter (\<lambda>kv. fst kv \<noteq> k') al) k = map_of al k"
  by (induction al) auto

lemma map_update_same:
  "i < length xs \<Longrightarrow> f y = f (xs ! i) \<Longrightarrow> map f (xs[i := y]) = map f xs"
  by (simp add: map_update list_update_same_conv)

lemma update_value_frame:
  assumes "update_value i xs = Inr ys"
  shows "fixed_part ys = fixed_part xs" and "length ys = length xs"
proof -
  from assms obtain v v' where i: "i < length xs"
    and v: "map_of (xs ! i) ''Value'' = Some v"
    and ys: "ys = xs[i := AList.update ''Value'' v' (xs ! i)]"
    by (auto simp: update_value_def split: if_splits option.splits sum.splits)
  show "length ys = length xs" by (simp add: ys)
  show "fixed_part ys = fixed_part xs"
    using i by (simp add: fixed_part_def ys map_update_same filter_update keys_update [OF v])
qed

lemma updater_step_frame:
  "fixed_part (sensors (updater_step s)) = fixed_part (sensors s)"
  "length (sensors (updater_step s)) = length (sensors s)"
  by (auto simp: updater_step_def update_value_frame split: option.splits sum.splits)

lemma data_json_state: "snd (data_json s) = s"
  by (simp add: data_json_def)

lemma run_Get: "run (Get # es) s = (fst (data_json s) # fst (run es s), snd (run es s))"
  by (cases "run es s") (simp add: data_json_def)

lemma run_frame:
  "fixed_part (sensors (snd (run es s))) = fixed_part (sensors s) \<and>
   length (sensors (snd (run es s))) = length (sensors s)"
proof (induction es arbitrary: s)
  case Nil
  show ?case by simp
next
  case (Cons e es)
  show ?case
  proof (cases e)
    case Updater
    then show ?thesis using Cons [of "updater_step s"] by (simp add: updater_step_frame)
  next
    case Get
    show ?thesis using Cons [of s] unfolding Get run_Get by simp
  qed
qed

lemma run_gets: "run (replicate n Get) s = (replicate n (fst (data_json s)), s)"
  by (induction n) (simp_all add: data_json_def)

lemma run_state:
  "snd (run es s) = (updater_step ^^ length (filter (\<lambda>e. e = Updater) es)) s"
proof (induction es arbitrary: s)
  case Nil
  show ?case by simp
next
  case (Cons e es)
  show ?case
  proof (cases e)
    case Updater
    then show ?thesis using Cons [of "updater_step s"] by (simp add: funpow_swap1)
  next
    case Get
    show ?thesis using Cons [of s] unfolding Get run_Get by simp
  qed
qed

lemma update_value_bounded:
  assumes "bounded_values xs" "i < 3"
  shows "\<exists>ys. update_value i xs = Inr ys \<and> bounded_values ys"
proof -
  have len: "length xs = 3" using assms(1) by (simp add: bounded_values_def)
  with assms(2) have "xs ! i \<in> set xs" by simp
  then obtain n where n: "n \<le> 10 * 2 ^ 52" "map_of (xs ! i) ''Value'' = Some (tenths n)"
    using assms(1) by (auto simp: bounded_values_def)
  obtain n' where n': "incremented (tenths n) = Inr (tenths n')" "n' \<le> 10 * 2 ^ 52"
    using incremented_bounded [OF n(1)] by blast
  define y where "y = AList.update ''Value'' (tenths n') (xs ! i)"
  have u: "update_value i xs = Inr (xs[i := y])"
    using len assms(2) n(2) n'(1) by (simp add: update_value_def y_def)
  have "map_of y ''Value'' = Some (tenths n')" by (simp add: y_def map_of_update)
  with n'(2) have "\<exists>m. m \<le> 10 * 2 ^ 52 \<and> map_of y ''Value'' = Some (tenths m)" by blast
  moreover have "set (xs[i := y]) \<subseteq> insert y (set xs)" by (rule set_update_subset_insert)
  ultimately have "bounded_values (xs[i := y])"
    using assms(1) unfolding bounded_values_def by (simp add: subset_iff) blast
  with u show ?thesis by blast
qed

lemma updater_step_healthy: "healthy s \<Longrightarrow> healthy (updater_step s)"
proof -
  assume h: "healthy s"
  show ?thesis
  proof (cases "pc s < 3")
    case True
    then obtain ys where "update_value (pc s) (sensors s) = Inr ys" "bounded_values ys"
      using update_value_bounded [of "sensors s" "pc s"] h by (auto simp: healthy_def)
    with h True show ?thesis by (simp add: updater_step_def healthy_def)
  next
    case False
    with h show ?thesis by (simp add: updater_step_def healthy_def)
  qed
qed

lemma funpow_healthy: "healthy s \<Longrightarrow> healthy ((updater_step ^^ n) s)"
  by (induction n) (simp_all add: updater_step_healthy)

lemma run_healthy: "healthy s \<Longrightarrow> healthy (snd (run es s))"
  by (simp add: run_state funpow_healthy)

lemma tenths_initial: "tenths 880 = ''88.0''" "tenths 200 = ''20.0''" "tenths 110 = ''11.0''"
  "tenths 881 = ''88.1''" "tenths 201 = ''20.1''" "tenths 111 = ''11.1''"
  "tenths 882 = ''88.2''" "tenths 202 = ''20.2''" "tenths 112 = ''11.2''"
  "tenths 883 = ''88.3''" "tenths 203 = ''20.3''" "tenths 113 = ''11.3''"
  by (simp_all add: tenths_def show_nat.simps digit_char_def digit_table_def)

lemma healthy_startup: "healthy startup"
proof -
  have "\<exists>n. n \<le> 10 * 2 ^ 52 \<and> ''88.0'' = tenths n"
    by (rule exI [of _ 880]) (simp add: tenths_initial)
  moreover have "\<exists>n. n \<le> 10 * 2 ^ 52 \<and> ''20.0'' = tenths n"
    by (rule exI [of _ 200]) (simp add: tenths_initial)
  moreover have "\<exists>n. n \<le> 10 * 2 ^ 52 \<and> ''11.0'' = tenths n"
    by (rule exI [of _ 110]) (simp add: tenths_initial)
  ultimately show ?thesis
    by (simp add: healthy_def startup_def bounded_values_def sensors_data_def)
qed

lemma one_decimal_tenths: "one_decimal (tenths n)"
  using digits_show_nat [of "n div 10"]
  by (simp add: one_decimal_def tenths_def is_digit_digit_char show_nat_not_Nil
      list_all_iff)

lemma parses_tenths: "n \<le> 10 * 2 ^ 52 \<Longrightarrow> parses_one_decimal (tenths n)"
proof -
  assume "n \<le> 10 * 2 ^ 52"
  then have "(of_nat n :: rat) \<le> of_nat (10 * 2 ^ 52)" by (simp only: of_nat_le_iff)
  then have "(of_nat n :: rat) / 10 \<le> 2 powi 52" by simp
  then obtain a where "to_double (of_nat n / 10) = Fin a"
    using to_double_le [of "of_nat n / 10" 52] by auto
  then show ?thesis
    by (simp add: parses_one_decimal_def one_decimal_tenths py_float_tenths)
qed

lemma healthy_parses:
  assumes "healthy s"
  shows "list_all (\<lambda>d. case map_of d ''Value'' of None \<Rightarrow> False
                        | Some v \<Rightarrow> parses_one_decimal v) (sensors s)"
  using assms
  by (auto simp: healthy_def bounded_values_def list_all_iff parses_tenths)

lemma value_fields_jsonify:
  "value_fields (jsonify xs) = map (map_option JStr) (readings xs)"
  by (simp add: jsonify_def readings_def map_of_map comp_def)

lemma shown_values:
  "value_fields (body (fst (data_json s))) = map (map_option JStr) (readings (sensors s))"
  by (simp add: data_json_def value_fields_jsonify)

lemma values_shown:
  "map (map_option JStr) vs = [Some (JStr x), Some (JStr y), Some (JStr z)] \<longleftrightarrow>
     vs = [Some x, Some y, Some z]"
  by (auto simp: map_eq_Cons_conv)

lemma update_value_exact:
  assumes "i < length xs" "map_of (xs ! i) ''Value'' = Some (tenths d)" "d < 10 ^ 15"
  shows "update_value i xs = Inr (xs[i := AList.update ''Value'' (tenths (d + 1)) (xs ! i)])"
  using assms by (simp add: update_value_def incremented_exact)

lemma updater_step_assign:
  "died s = None \<Longrightarrow> pc s < 3 \<Longrightarrow> update_value (pc s) (sensors s) = Inr ys \<Longrightarrow>
     updater_step s = s\<lparr>sensors := ys, pc := pc s + 1\<rparr>"
  by (simp add: updater_step_def)

lemma updater_step_sleep:
  "died s = None \<Longrightarrow> \<not> pc s < 3 \<Longrightarrow>
     updater_step s = s\<lparr>pc := 0, slept := slept s + REFRESH_RATE\<rparr>"
  by (simp add: updater_step_def)

lemma one_pass:
  assumes "pc s = 0" "died s = None"
    and "readings (sensors s) = [Some (tenths a), Some (tenths b), Some (tenths c)]"
    and "a < 10 ^ 15" "b < 10 ^ 15" "c < 10 ^ 15"
  defines "s' \<equiv> updater_step (updater_step (updater_step (updater_step s)))"
  shows "readings (sensors s') =
           [Some (tenths (a + 1)), Some (tenths (b + 1)), Some (tenths (c + 1))]"
    and "pc s' = 0" and "died s' = None" and "slept s' = slept s + REFRESH_RATE"
proof -
  obtain x0 x1 x2 where xs: "sensors s = [x0, x1, x2]"
    and v: "map_of x0 ''Value'' = Some (tenths a)" "map_of x1 ''Value'' = Some (tenths b)"
      "map_of x2 ''Value'' = Some (tenths c)"
    using assms(3) by (auto simp: readings_def map_eq_Cons_conv)
  define y0 where "y0 = AList.update ''Value'' (tenths (a + 1)) x0"
  define y1 where "y1 = AList.update ''Value'' (tenths (b + 1)) x1"
  define y2 where "y2 = AList.update ''Value'' (tenths (c + 1)) x2"
  define t1 where "t1 = s\<lparr>sensors := [y0, x1, x2], pc := 1\<rparr>"
  define t2 where "t2 = s\<lparr>sensors := [y0, y1, x2], pc := 2\<rparr>"
  define t3 where "t3 = s\<lparr>sensors := [y0, y1, y2], pc := 3\<rparr>"
  define t4 where "t4 = s\<lparr>sensors := [y0, y1, y2], pc := 0, slept := slept s + REFRESH_RATE\<rparr>"
  have "update_value 0 [x0, x1, x2] = Inr [y0, x1, x2]"
    using update_value_exact [of 0 "[x0, x1, x2]" a] v(1) assms(4) by (simp add: y0_def)
  then have s1: "updater_step s = t1"
    using updater_step_assign [of s "[y0, x1, x2]"] assms(1,2) by (simp add: xs t1_def)
  have "update_value 1 [y0, x1, x2] = Inr [y0, y1, x2]"
    using update_value_exact [of 1 "[y0, x1, x2]" b] v(2) assms(5) by (simp add: y1_def)
  then have s2: "updater_step t1 = t2"
    using updater_step_assign [of t1 "[y0, y1, x2]"] assms(2) by (simp add: t1_def t2_def)
  have "update_value 2 [y0, y1, x2] = Inr [y0, y1, y2]"
    using update_value_exact [of 2 "[y0, y1, x2]" c] v(3) assms(6) by (simp add: y2_def)
  then have s3: "updater_step t2 = t3"
    using updater_step_assign [of t2 "[y0, y1, y2]"] assms(2) by (simp add: t2_def t3_def)
  have s4: "updater_step t3 = t4"
    using updater_step_sleep [of t3] assms(2) by (simp add: t3_def t4_def)
  have s': "s' = t4" by (simp add: s'_def s1 s2 s3 s4)
  show "readings (sensors s') =
           [Some (tenths (a + 1)), Some (tenths (b + 1)), Some (tenths (c + 1))]"
    by (simp add: s' t4_def y0_def y1_def y2_def map_of_update readings_def)
  show "pc s' = 0" "died s' = None" "slept s' = slept s + REFRESH_RATE"
    using assms(2) by (simp_all add: s' t4_def)
qed

lemma passes:
  assumes "pc s = 0" "died s = None"
    and "readings (sensors s) = [Some (tenths a), Some (tenths b), Some (tenths c)]"
    and "a + n < 10 ^ 15" "b + n < 10 ^ 15" "c + n < 10 ^ 15"
  shows "readings (sensors (update_fake_sensors n s)) =
           [Some (tenths (a + n)), Some (tenths (b + n)), Some (tenths (c + n))] \<and>
         pc (update_fake_sensors n s) = 0 \<and> died (update_fake_sensors n s) = None \<and>
         slept (update_fake_sensors n s) = slept s + n * REFRESH_RATE"
  using assms
proof (induction n arbitrary: s a b c)
  case 0
  then show ?case by simp
next
  case (Suc n)
  define s' where "s' = updater_step (updater_step (updater_step (updater_step s)))"
  have abc: "a < 10 ^ 15" "b < 10 ^ 15" "c < 10 ^ 15" using Suc.prems(4-6) by simp_all
  note p = one_pass [OF Suc.prems(1-3) abc, folded s'_def]
  have "readings (sensors (update_fake_sensors n s')) =
           [Some (tenths (a + 1 + n)), Some (tenths (b + 1 + n)), Some (tenths (c + 1 + n))] \<and>
         pc (update_fake_sensors n s') = 0 \<and> died (update_fake_sensors n s') = None \<and>
         slept (update_fake_sensors n s') = slept s' + n * REFRESH_RATE"
    using Suc.prems(4-6) by (intro Suc.IH p) simp_all
  then show ?case by (simp add: s'_def [symmetric] p(4))
qed

lemma incremented_initial:
  "incremented ''88.0'' = Inr ''88.1''" "incremented ''20.0'' = Inr ''20.1''"
  "incremented ''11.0'' = Inr ''11.1''"
  using incremented_exact [of 880] incremented_exact [of 200] incremented_exact [of 110]
  by (simp_all add: tenths_initial)

lemma sensors_data_fake: "sensors_data = fake_sensors ''88.0'' ''20.0'' ''11.0''"
  by (simp add: sensors_data_def fake_sensors_def)

lemma first_pass_steps:
  "updater_step startup =
     \<lparr>sensors = fake_sensors ''88.1'' ''20.0'' ''11.0'', pc = 1, died = None, slept = 0\<rparr>"
  "updater_step (updater_step startup) =
     \<lparr>sensors = fake_sensors ''88.1'' ''20.1'' ''11.0'', pc = 2, died = None, slept = 0\<rparr>"
  "updater_step (updater_step (updater_step startup)) =
     \<lparr>sensors = fake_sensors ''88.1'' ''20.1'' ''11.1'', pc = 3, died = None, slept = 0\<rparr>"
proof -
  show 1: "updater_step startup =
     \<lparr>sensors = fake_sensors ''88.1'' ''20.0'' ''11.0'', pc = 1, died = None, slept = 0\<rparr>"
    by (simp add: updater_step_def update_value_def startup_def sensors_data_fake
        fake_sensors_def incremented_initial)
  have "updater_step
     \<lparr>sensors = fake_sensors ''88.1'' ''20.0'' ''11.0'', pc = 1, died = None, slept = 0\<rparr> =
     \<lparr>sensors = fake_sensors ''88.1'' ''20.1'' ''11.0'', pc = 2, died = None, slept = 0\<rparr>"
    by (simp add: updater_step_def update_value_def fake_sensors_def incremented_initial)
  then show 2: "updater_step (updater_step startup) =
     \<lparr>sensors = fake_sensors ''88.1'' ''20.1'' ''11.0'', pc = 2, died = None, slept = 0\<rparr>"
    by (simp only: 1)
  have "updater_step
     \<lparr>sensors = fake_sensors ''88.1'' ''20.1'' ''11.0'', pc = 2, died = None, slept = 0\<rparr> =
     \<lparr>sensors = fake_sensors ''88.1'' ''20.1'' ''11.1'', pc = 3, died = None, slept = 0\<rparr>"
    by (simp add: updater_step_def update_value_def fake_sensors_def incremented_initial)
  then show "updater_step (updater_step (updater_step startup)) =
     \<lparr>sensors = fake_sensors ''88.1'' ''20.1'' ''11.1'', pc = 3, died = None, slept = 0\<rparr>"
    by (simp only: 2)
qed

lemma jsonify_fake:
  "jsonify (fake_sensors a b c) =
     JArr
      [JObj [(''Text'', JStr ''Fake Sensor 1''), (''Type'', JStr ''Temperature''),
             (''Value'', JStr a), (''SensorId'', JStr ''fake_sensor_1'')],
       JObj [(''Text'', JStr ''Fake Sensor 2''), (''Type'', JStr ''Humidity''),
             (''Value'', JStr b), (''SensorId'', JStr ''fake_sensor_2'')],
       JObj [(''Text'', JStr ''Fake Sensor 3''), (''Type'', JStr ''Pressure''),
             (''Value'', JStr c), (''SensorId'', JStr ''fake_sensor_3'')]]"
  by (simp add: jsonify_def fake_sensors_def)

lemma startup_values:
  "pc startup = 0" "died startup = None" "slept startup = 0"
  "readings (sensors startup) = [Some (tenths 880), Some (tenths 200), Some (tenths 110)]"
  by (simp_all add: startup_def sensors_data_def readings_def tenths_initial)

lemma update_fake_sensors_steps: "update_fake_sensors n s = (updater_step ^^ (4 * n)) s"
proof (induction n arbitrary: s)
  case 0
  show ?case by simp
next
  case (Suc n)
  have "4 * Suc n = 4 * n + 4" by simp
  then have "(updater_step ^^ (4 * Suc n)) s = (updater_step ^^ (4 * n)) ((updater_step ^^ 4) s)"
    by (simp only: funpow_add o_apply)
  also have "(updater_step ^^ 4) s = updater_step (updater_step (updater_step (updater_step s)))"
    by (simp add: numeral_eq_Suc)
  finally show ?case by (simp add: Suc)
qed

subsection \<open>The first read\<close>

text \<open>
  The loop of \<^verbatim>\<open>update_fake_sensors\<close> assigns first and sleeps afterwards, and the thread
  is started before the server. So the claim that a GET before the first refresh
  interval has elapsed returns 88.0, 20.0 and 11.0 fails: after the three assignments of
  the first pass no second has been slept, and the GET served then returns 88.1, 20.1
  and 11.1.
\<close>

theorem first_read_after_first_pass_counterexample:
  "slept (snd (run [Updater, Updater, Updater] startup)) = 0 \<and>
   fst (run [Updater, Updater, Updater, Get] startup) =
     [\<lparr>body = JArr
        [JObj [(''Text'', JStr ''Fake Sensor 1''), (''Type'', JStr ''Temperature''),
               (''Value'', JStr ''88.1''), (''SensorId'', JStr ''fake_sensor_1'')],
         JObj [(''Text'', JStr ''Fake Sensor 2''), (''Type'', JStr ''Humidity''),
               (''Value'', JStr ''20.1''), (''SensorId'', JStr ''fake_sensor_2'')],
         JObj [(''Text'', JStr ''Fake Sensor 3''), (''Type'', JStr ''Pressure''),
               (''Value'', JStr ''11.1''), (''SensorId'', JStr ''fake_sensor_3'')]],
       status = 200\<rparr>]"
  by (simp add: first_pass_steps(3) data_json_def jsonify_fake)

text \<open>
  Claim C2, as amended. Let a GET be served after any interleaving \<open>es\<close> of earlier
  requests and updater statements in which the updater has executed \<open>k \<le> 3\<close> statements,
  that is, has not yet returned from its first sleep. The response is 200 with an array
  of exactly three objects, no sleep is over, and the value of sensor \<open>i\<close> is the initial
  one (88.0, 20.0, 11.0) as long as the updater has not executed its \<open>i\<close>-th assignment
  and the incremented one (88.1, 20.1, 11.1) from then on.
\<close>

theorem first_read_follows_updater:
  assumes "length (filter (\<lambda>e. e = Updater) es) = k" and "k \<le> 3"
  shows "fst (data_json (snd (run es startup))) =
     \<lparr>body = JArr
        [JObj [(''Text'', JStr ''Fake Sensor 1''), (''Type'', JStr ''Temperature''),
               (''Value'', JStr (if 1 \<le> k then ''88.1'' else ''88.0'')),
               (''SensorId'', JStr ''fake_sensor_1'')],
         JObj [(''Text'', JStr ''Fake Sensor 2''), (''Type'', JStr ''Humidity''),
               (''Value'', JStr (if 2 \<le> k then ''20.1'' else ''20.0'')),
               (''SensorId'', JStr ''fake_sensor_2'')],
         JObj [(''Text'', JStr ''Fake Sensor 3''), (''Type'', JStr ''Pressure''),
               (''Value'', JStr (if 3 \<le> k then ''11.1'' else ''11.0'')),
               (''SensorId'', JStr ''fake_sensor_3'')]],
       status = 200\<rparr> \<and>
     slept (snd (run es startup)) = 0"
proof -
  have st: "snd (run es startup) = (updater_step ^^ k) startup"
    using assms(1) by (simp add: run_state)
  from assms(2) consider "k = 0" | "k = 1" | "k = 2" | "k = 3" by linarith
  then show ?thesis
  proof cases
    case 1
    have "(updater_step ^^ k) startup = startup" by (simp add: 1)
    then show ?thesis
      unfolding st by (simp add: 1 startup_def sensors_data_fake data_json_def jsonify_fake)
  next
    case 2
    have "(updater_step ^^ k) startup = updater_step startup" by (simp add: 2)
    then show ?thesis
      unfolding st by (simp add: 2 first_pass_steps(1) data_json_def jsonify_fake)
  next
    case 3
    have "(updater_step ^^ k) startup = updater_step (updater_step startup)"
      by (simp add: 3 numeral_2_eq_2)
    then show ?thesis
      unfolding st by (simp add: 3 first_pass_steps(2) data_json_def jsonify_fake)
  next
    case 4
    have "(updater_step ^^ k) startup = updater_step (updater_step (updater_step startup))"
      by (simp add: 4 numeral_3_eq_3)
    then show ?thesis
      unfolding st by (simp add: 4 first_pass_steps(3) data_json_def jsonify_fake)
  qed
qed

text \<open>The theorem at the schedule of one GET, one updater statement, and the GET in question.\<close>

theorem first_read_follows_updater_witness:
  "length (filter (\<lambda>e. e = Updater) [Get, Updater]) = 1 \<and> (1::nat) \<le> 3 \<and>
   fst (data_json (snd (run [Get, Updater] startup))) =
     \<lparr>body = JArr
        [JObj [(''Text'', JStr ''Fake Sensor 1''), (''Type'', JStr ''Temperature''),
               (''Value'', JStr ''88.1''), (''SensorId'', JStr ''fake_sensor_1'')],
         JObj [(''Text'', JStr ''Fake Sensor 2''), (''Type'', JStr ''Humidity''),
               (''Value'', JStr ''20.0''), (''SensorId'', JStr ''fake_sensor_2'')],
         JObj [(''Text'', JStr ''Fake Sensor 3''), (''Type'', JStr ''Pressure''),
               (''Value'', JStr ''11.0''), (''SensorId'', JStr ''fake_sensor_3'')]],
       status = 200\<rparr>"
  using first_read_follows_updater [of "[Get, Updater]" 1] by simp

subsection \<open>What a pass adds\<close>

text \<open>
  Waiting at least five seconds can span more than one pass, so the claim that a GET
  after such a wait shows each value increased by exactly 0.1 fails: between the state
  after the first pass and the state after the third the updater sleeps ten seconds, and
  the values go from 88.1, 20.1, 11.1 to 88.3, 20.3, 11.3.
\<close>

theorem ten_seconds_two_passes_counterexample:
  "slept (update_fake_sensors 3 startup) = slept (update_fake_sensors 1 startup) + 10 \<and>
   value_fields (body (fst (data_json (update_fake_sensors 1 startup)))) =
     [Some (JStr ''88.1''), Some (JStr ''20.1''), Some (JStr ''11.1'')] \<and>
   value_fields (body (fst (data_json (update_fake_sensors 3 startup)))) =
     [Some (JStr ''88.3''), Some (JStr ''20.3''), Some (JStr ''11.3'')]"
proof -
  note p1 = passes [OF startup_values(1,2,4), of 1]
  note p3 = passes [OF startup_values(1,2,4), of 3]
  have "readings (sensors (update_fake_sensors 1 startup)) =
      [Some ''88.1'', Some ''20.1'', Some ''11.1'']"
    "slept (update_fake_sensors 1 startup) = 5"
    using p1 by (simp_all add: tenths_initial startup_values REFRESH_RATE_def)
  moreover have "readings (sensors (update_fake_sensors 3 startup)) =
      [Some ''88.3'', Some ''20.3'', Some ''11.3'']"
    "slept (update_fake_sensors 3 startup) = 15"
    using p3 by (simp_all add: tenths_initial startup_values REFRESH_RATE_def)
  ultimately show ?thesis by (simp only: shown_values values_shown) simp
qed

text \<open>
  Claim C6, as amended. Let the updater stand at the head of its loop, alive, and let a
  GET show the three values as decimals with one fractional digit, \<open>a / 10\<close>, \<open>b / 10\<close>
  and \<open>c / 10\<close>. After \<open>n\<close> passes of the loop, a GET shows \<open>(a + n) / 10\<close>,
  \<open>(b + n) / 10\<close> and \<open>(c + n) / 10\<close>, again with exactly one fractional digit, and the
  updater has slept \<open>n\<close> times \<open>REFRESH_RATE\<close> seconds more: each pass adds exactly 0.1 to
  each value. This holds while the values stay below \<open>10\<^sup>1\<^sup>4\<close> (\<open>a + n < 10\<^sup>1\<^sup>5\<close>), where
  the rounding errors of the binary sum are too small to change the digit printed.
\<close>

theorem passes_add_tenths:
  assumes "pc s = 0" and "died s = None"
    and "value_fields (body (fst (data_json s))) =
           [Some (JStr (tenths a)), Some (JStr (tenths b)), Some (JStr (tenths c))]"
    and "a + n < 10 ^ 15" and "b + n < 10 ^ 15" and "c + n < 10 ^ 15"
  shows "value_fields (body (fst (data_json (update_fake_sensors n s)))) =
           [Some (JStr (tenths (a + n))), Some (JStr (tenths (b + n))),
            Some (JStr (tenths (c + n)))] \<and>
         slept (update_fake_sensors n s) = slept s + n * REFRESH_RATE"
proof -
  have "readings (sensors s) = [Some (tenths a), Some (tenths b), Some (tenths c)]"
    using assms(3) by (simp only: shown_values values_shown)
  from passes [OF assms(1,2) this assms(4-6)] show ?thesis
    by (simp only: shown_values values_shown)
qed

text \<open>The theorem at the start of the process and one pass.\<close>

theorem passes_add_tenths_witness:
  "pc startup = 0 \<and> died startup = None \<and>
   value_fields (body (fst (data_json startup))) =
     [Some (JStr ''88.0''), Some (JStr ''20.0''), Some (JStr ''11.0'')] \<and>
   value_fields (body (fst (data_json (update_fake_sensors 1 startup)))) =
     [Some (JStr ''88.1''), Some (JStr ''20.1''), Some (JStr ''11.1'')] \<and>
   slept (update_fake_sensors 1 startup) = 5"
proof -
  have "value_fields (body (fst (data_json startup))) =
      [Some (JStr (tenths 880)), Some (JStr (tenths 200)), Some (JStr (tenths 110))]"
    by (simp only: shown_values values_shown startup_values)
  from passes_add_tenths [OF startup_values(1,2) this, of 1] this show ?thesis
    by (simp add: tenths_initial startup_values REFRESH_RATE_def)
qed

subsection \<open>Reads\<close>

text \<open>
  Claim C7. The view of \<^verbatim>\<open>GET /data.json\<close> leaves the state as it found it, so any
  number of GETs served with no statement of the updater between them return the same
  response, the JSON of the sensor list as it stands.
\<close>

theorem data_json_only_reads:
  "snd (data_json s) = s \<and>
   run (replicate n Get) s = (replicate n \<lparr>body = jsonify (sensors s), status = 200\<rparr>, s)"
  by (simp add: run_gets data_json_def)

text \<open>
  Claim C8. A statement of the updater leaves the length of the sensor list, the keys of
  every sensor and every item other than \<^verbatim>\<open>Value\<close> as they were, whatever the state, and
  a GET leaves the whole state. So after any interleaving of updater statements and GETs
  from the start of the process the list has three sensors, each with the keys
  \<^verbatim>\<open>Text\<close>, \<^verbatim>\<open>Type\<close>, \<^verbatim>\<open>Value\<close>, \<^verbatim>\<open>SensorId\<close> and with its initial \<^verbatim>\<open>Text\<close>, \<^verbatim>\<open>Type\<close> and
  \<^verbatim>\<open>SensorId\<close>.
\<close>

theorem only_value_changes:
  "fixed_part (sensors (updater_step s)) = fixed_part (sensors s) \<and>
   length (sensors (updater_step s)) = length (sensors s) \<and>
   snd (data_json s) = s \<and>
   length (sensors (snd (run es startup))) = 3 \<and>
   map (\<lambda>d. (map_of d ''Text'', map_of d ''Type'', map_of d ''SensorId'', map fst d))
     (sensors (snd (run es startup))) =
     [(Some ''Fake Sensor 1'', Some ''Temperature'', Some ''fake_sensor_1'',
       [''Text'', ''Type'', ''Value'', ''SensorId'']),
      (Some ''Fake Sensor 2'', Some ''Humidity'', Some ''fake_sensor_2'',
       [''Text'', ''Type'', ''Value'', ''SensorId'']),
      (Some ''Fake Sensor 3'', Some ''Pressure'', Some ''fake_sensor_3'',
       [''Text'', ''Type'', ''Value'', ''SensorId''])]"
proof -
  define xs where "xs = sensors (snd (run es startup))"
  have f: "fixed_part xs = fixed_part sensors_data" and l: "length xs = 3"
    using run_frame [of es startup] by (simp_all add: xs_def startup_def sensors_data_def)
  have m: "map_of d k = map_of (filter (\<lambda>kv. fst kv \<noteq> ''Value'') d) k"
    if "k \<noteq> ''Value''" for d :: sensor and k
    using that by (simp add: map_of_filter_other)
  from l obtain d0 d1 d2 where xs: "xs = [d0, d1, d2]"
    by (auto simp: length_Suc_conv numeral_3_eq_3)
  have "map (\<lambda>d. (map_of d ''Text'', map_of d ''Type'', map_of d ''SensorId'', map fst d)) xs =
     [(Some ''Fake Sensor 1'', Some ''Temperature'', Some ''fake_sensor_1'',
       [''Text'', ''Type'', ''Value'', ''SensorId'']),
      (Some ''Fake Sensor 2'', Some ''Humidity'', Some ''fake_sensor_2'',
       [''Text'', ''Type'', ''Value'', ''SensorId'']),
      (Some ''Fake Sensor 3'', Some ''Pressure'', Some ''fake_sensor_3'',
       [''Text'', ''Type'', ''Value'', ''SensorId''])]"
    using f unfolding xs
    by (simp add: fixed_part_def sensors_data_def
        m [of "''Text''" d0] m [of "''Type''" d0] m [of "''SensorId''" d0]
        m [of "''Text''" d1] m [of "''Type''" d1] m [of "''SensorId''" d1]
        m [of "''Text''" d2] m [of "''Type''" d2] m [of "''SensorId''" d2])
  then show ?thesis
    using l by (simp add: xs_def updater_step_frame data_json_state)
qed

subsection \<open>The updater never halts\<close>

text \<open>
  Claim C10. After any interleaving of updater statements and GETs from the start of the
  process, the updater thread has not been ended by an exception (so no \<^verbatim>\<open>float\<close> call
  raised), and the \<^verbatim>\<open>Value\<close> of every sensor is a decimal numeral with one fractional
  digit that \<^verbatim>\<open>float\<close> reads as a finite number.
\<close>

theorem updater_never_halts:
  "died (snd (run es startup)) = None \<and>
   list_all (\<lambda>d. case map_of d ''Value'' of None \<Rightarrow> False
                  | Some v \<Rightarrow> parses_one_decimal v)
     (sensors (snd (run es startup)))"
  using run_healthy [OF healthy_startup, of es] healthy_parses
  by (simp add: healthy_def)

end
